theory Spec2Isabelle
  imports Main
begin

section \<open>The outbox relay (\<^verbatim>\<open>outbox-relay/src/relay/polling_publisher.py\<close>)\<close>

text \<open>
  The relay is one Python object, \<^verbatim>\<open>PollingPublisher\<close>, whose coroutines talk to three
  things outside the process: the Elasticsearch index \<^verbatim>\<open>auction_items\<close>, the RabbitMQ
  exchange \<^verbatim>\<open>items-updates\<close> and the state file at \<^verbatim>\<open>STATE_PATH\<close>. The embedding
  passes the state explicitly: a \<open>relay\<close> record for the attributes of the object and a
  \<open>world\<close> record for what lies outside. Every coroutine becomes a function from such a
  pair to a result and the pair afterwards. An exception is a value of type \<open>error\<close>:
  what the object and the world looked like when it was raised is returned beside it, as
  the mutations made before a Python exception stay made.

  The methods keep their names: \<open>start\<close>, \<open>stop\<close>, \<open>process_outbox\<close>, \<open>save_state\<close>,
  \<open>load_state\<close>, \<open>publish_event\<close>, \<open>info\<close>. \<^verbatim>\<open>self.es.search\<close> is \<open>es_search\<close> and
  \<^verbatim>\<open>self.es.update\<close> is \<open>es_partial_update\<close>; the body of a \<^verbatim>\<open>try\<close> is a function of
  its own (\<open>write_state\<close>, \<open>read_state\<close>, \<open>publish_and_mark\<close>) and the method around it is
  the \<^verbatim>\<open>except\<close>. Of the log, the \<^verbatim>\<open>logger.error\<close> lines are kept.
\<close>

subsection \<open>Python values\<close>

datatype error =
    AttributeError
  | KeyError
  | TypeError
  | ValueError
  | JSONDecodeError
  | OSError
  | AMQPError
  | TransportError
  | NotFoundError
  | SchedulerError

text \<open>
  What \<^verbatim>\<open>json.loads\<close> can return and \<^verbatim>\<open>json.dumps\<close> accepts: \<^verbatim>\<open>None\<close>, booleans,
  integers, strings, lists and dicts with string keys (\<open>JObj\<close> carries the items of the
  dict). Numbers with a fraction or an exponent are floats and are left out.
\<close>

datatype json =
    JNull
  | JBool bool
  | JInt int
  | JStr string
  | JArr "json list"
  | JObj "(string \<times> json) list"

text \<open>Truth value of a Python object, as \<^verbatim>\<open>if x\<close> tests it.\<close>

fun truthy :: "json \<Rightarrow> bool" where
  "truthy JNull = False"
| "truthy (JBool b) = b"
| "truthy (JInt n) = (n \<noteq> 0)"
| "truthy (JStr s) = (s \<noteq> [])"
| "truthy (JArr xs) = (xs \<noteq> [])"
| "truthy (JObj kvs) = (kvs \<noteq> [])"

text \<open>\<^verbatim>\<open>x.get(key, default)\<close>: only a dict has the method.\<close>

fun dict_get :: "json \<Rightarrow> string \<Rightarrow> json \<Rightarrow> error + json" where
  "dict_get (JObj kvs) k dflt = (case map_of kvs k of None \<Rightarrow> Inr dflt | Some v \<Rightarrow> Inr v)"
| "dict_get _ k dflt = Inl AttributeError"

text \<open>\<^verbatim>\<open>x[key]\<close> with a string key.\<close>

fun subscript :: "json \<Rightarrow> string \<Rightarrow> error + json" where
  "subscript (JObj kvs) k = (case map_of kvs k of None \<Rightarrow> Inl KeyError | Some v \<Rightarrow> Inr v)"
| "subscript _ k = Inl TypeError"

text \<open>
  \<^verbatim>\<open>x += 1\<close>. The class declares \<^verbatim>\<open>items_processed: int\<close>, but the attribute holds
  whatever \<^verbatim>\<open>load_state\<close> found in the file; a \<^verbatim>\<open>bool\<close> is an \<^verbatim>\<open>int\<close> in Python,
  every other non-number raises \<^verbatim>\<open>TypeError\<close>.
\<close>

fun iadd1 :: "json \<Rightarrow> error + json" where
  "iadd1 (JInt n) = Inr (JInt (n + 1))"
| "iadd1 (JBool b) = Inr (JInt ((if b then 1 else 0) + 1))"
| "iadd1 _ = Inl TypeError"

subsection \<open>The world outside the process\<close>

text \<open>
  A document of the index, with the fields the producer writes
  (\<^verbatim>\<open>items_producer.py\<close>, \<^verbatim>\<open>index_job\<close>). \<open>created_at\<close> is the instant the \<^verbatim>\<open>date\<close>
  mapping of the index sorts by.
\<close>

record outbox_doc =
  title :: string
  description :: string
  price :: int
  created_at :: nat
  outbox_sent :: bool

text \<open>A hit of a search: its \<^verbatim>\<open>_id\<close> and its \<^verbatim>\<open>_source\<close>.\<close>

type_synonym hit = "string \<times> outbox_doc"

text \<open>The body of the message: \<^verbatim>\<open>{"id": id, "title": title, "created_at": created_at}\<close>.\<close>

record message =
  msg_id :: string
  msg_title :: string
  msg_created_at :: nat

text \<open>
  The text of the state file is represented by what \<^verbatim>\<open>json.loads\<close> makes of it: the
  value it parses to, or \<open>Garbled\<close> for a text it rejects (the empty text among them).
  So \<^verbatim>\<open>json.dumps\<close> of a value writes \<open>Dumps\<close> of it.
\<close>

datatype file_text = Dumps json | Garbled

datatype sort_order = Asc | Desc

text \<open>The search body: a term filter on \<^verbatim>\<open>outbox_sent\<close>, a sort on \<^verbatim>\<open>created_at\<close>, a size.\<close>

record search_body =
  q_term_outbox_sent :: bool
  q_sort_created_at :: sort_order
  q_size :: int

text \<open>Every call that leaves the process, in the order the calls were made.\<close>

datatype call =
    Connect
  | OpenChannel
  | DeclareExchange
  | AddJob
  | StartScheduler
  | Search search_body
  | Publish message
  | Update string
  | OpenRead
  | ReadFile
  | OpenWrite
  | WriteFile file_text
  | CloseChannel
  | CloseConnection
  | CloseEs
  | ShutdownScheduler

record world =
  auction_items :: "hit list"
  max_result_window :: nat
  delivered :: "message list"
  state_file :: "file_text option"
  trace :: "call list"
  errors_logged :: "(string \<times> error) list"

text \<open>
  What does not change during a run. \<open>fails n\<close> says whether the call made when \<open>n\<close>
  calls have been made raises (the broker is unreachable, the disk is full, ...): any
  pattern of failures is some \<open>fails\<close>. \<open>now n\<close> is what \<^verbatim>\<open>datetime.now()\<close> returns at
  that point. \<open>isoformat\<close> and \<open>fromisoformat\<close> are the two methods of the standard
  library's \<^verbatim>\<open>datetime\<close>, over any type \<open>'d\<close> of datetimes.
\<close>

record 'd env =
  polling_limit :: int
  fails :: "nat \<Rightarrow> bool"
  now :: "nat \<Rightarrow> 'd"
  isoformat :: "'d \<Rightarrow> string"
  fromisoformat :: "string \<Rightarrow> error + 'd"

subsection \<open>The relay object\<close>

datatype handle = Opened | Closed

text \<open>
  \<^verbatim>\<open>connection\<close>, \<^verbatim>\<open>channel\<close> and \<^verbatim>\<open>exchange\<close> are only annotated in the class body, so
  they do not exist (\<open>None\<close>) until \<^verbatim>\<open>start\<close> assigns them; \<^verbatim>\<open>scheduler\<close>, \<^verbatim>\<open>es\<close>,
  \<^verbatim>\<open>items_processed\<close> and \<^verbatim>\<open>last_update\<close> have values from the class body.
\<close>

record 'd relay =
  connection :: "handle option"
  channel :: "handle option"
  exchange :: "unit option"
  jobs :: nat
  scheduler_running :: bool
  es :: handle
  items_processed :: json
  last_update :: "'d option"

definition new_relay :: "'d relay" where
  "new_relay = \<lparr>connection = None, channel = None, exchange = None, jobs = 0,
     scheduler_running = False, es = Opened, items_processed = JInt 0, last_update = None\<rparr>"

type_synonym 'd state = "'d relay \<times> world"

text \<open>One call out of the process: it is recorded, and the environment decides whether it raises.\<close>

definition call_out :: "'d env \<Rightarrow> call \<Rightarrow> world \<Rightarrow> bool \<times> world" where
  "call_out env c w = (\<not> fails env (length (trace w)), w\<lparr>trace := trace w @ [c]\<rparr>)"

definition log_error :: "string \<Rightarrow> error \<Rightarrow> 'd state \<Rightarrow> 'd state" where
  "log_error msg e s = (fst s, (snd s)\<lparr>errors_logged := errors_logged (snd s) @ [(msg, e)]\<rparr>)"

subsection \<open>Elasticsearch: search and partial update\<close>

text \<open>
  Elasticsearch answers a search when the client is open, the request gets through, and
  the size is neither negative nor beyond the result window of the index. The answer is
  the documents the term filter keeps, sorted by \<^verbatim>\<open>created_at\<close>, cut at \<open>size\<close>.
\<close>

definition search_answered :: "'d env \<Rightarrow> search_body \<Rightarrow> 'd state \<Rightarrow> bool" where
  "search_answered env q s \<longleftrightarrow>
     es (fst s) = Opened \<and> \<not> fails env (length (trace (snd s)))
     \<and> 0 \<le> q_size q \<and> q_size q \<le> int (max_result_window (snd s))"

definition matching :: "search_body \<Rightarrow> hit list \<Rightarrow> hit list" where
  "matching q ds =
     (let kept = filter (\<lambda>h. outbox_sent (snd h) = q_term_outbox_sent q) ds;
          sorted_hits = sort_key (\<lambda>h. created_at (snd h)) kept
      in take (nat (q_size q))
           (case q_sort_created_at q of Asc \<Rightarrow> sorted_hits | Desc \<Rightarrow> rev sorted_hits))"

definition es_search :: "'d env \<Rightarrow> search_body \<Rightarrow> 'd state \<Rightarrow> (error + hit list) \<times> 'd state" where
  "es_search env q s =
     (let r = fst s; (ok, w) = call_out env (Search q) (snd s)
      in if search_answered env q s
         then (Inr (matching q (auction_items w)), (r, w))
         else (Inl TransportError, (r, w)))"

text \<open>
  \<^verbatim>\<open>es.update(index=INDEX_NAME, id=id, body={"doc": {"outbox_sent": True}})\<close>: a partial
  update of the document with that id; it raises when there is none.
\<close>

definition mark_sent :: "string \<Rightarrow> hit list \<Rightarrow> hit list" where
  "mark_sent i ds = map (\<lambda>h. if fst h = i then (fst h, (snd h)\<lparr>outbox_sent := True\<rparr>) else h) ds"

definition es_partial_update :: "'d env \<Rightarrow> string \<Rightarrow> 'd state \<Rightarrow> error option \<times> 'd state" where
  "es_partial_update env i s =
     (let r = fst s; (ok, w) = call_out env (Update i) (snd s)
      in if \<not> (es r = Opened \<and> ok) then (Some TransportError, (r, w))
         else if i \<notin> fst ` set (auction_items w) then (Some NotFoundError, (r, w))
         else (None, (r, w\<lparr>auction_items := mark_sent i (auction_items w)\<rparr>)))"

subsection \<open>\<^verbatim>\<open>publish_event\<close>\<close>

text \<open>
  \<^verbatim>\<open>self.exchange.publish(...)\<close>: reading the attribute raises when \<^verbatim>\<open>start\<close> never set
  it; the publish raises when the channel behind the exchange is closed or the broker
  does not take the message.
\<close>

definition publish_event :: "'d env \<Rightarrow> message \<Rightarrow> 'd state \<Rightarrow> error option \<times> 'd state" where
  "publish_event env m s =
     (let r = fst s
      in case exchange r of
           None \<Rightarrow> (Some AttributeError, s)
         | Some _ \<Rightarrow>
             (let (ok, w) = call_out env (Publish m) (snd s)
              in if channel r = Some Opened \<and> ok
                 then (None, (r, w\<lparr>delivered := delivered w @ [m]\<rparr>))
                 else (Some AMQPError, (r, w))))"

subsection \<open>\<^verbatim>\<open>save_state\<close> and \<^verbatim>\<open>load_state\<close>\<close>

definition state_dict :: "'d env \<Rightarrow> 'd relay \<Rightarrow> json" where
  "state_dict env r =
     JObj [(''items_processed'', items_processed r),
           (''last_update'', case last_update r of
                               None \<Rightarrow> JNull
                             | Some d \<Rightarrow> JStr (isoformat env d))]"

text \<open>
  The body of the \<^verbatim>\<open>try\<close> in \<^verbatim>\<open>save_state\<close>: opening for writing empties the file, the
  write fills it.
\<close>

definition write_state :: "'d env \<Rightarrow> json \<Rightarrow> 'd state \<Rightarrow> error option \<times> 'd state" where
  "write_state env j s =
     (let r = fst s; (opened, w1) = call_out env OpenWrite (snd s)
      in if \<not> opened then (Some OSError, (r, w1))
         else (let w2 = w1\<lparr>state_file := Some Garbled\<rparr>;
                   (written, w3) = call_out env (WriteFile (Dumps j)) w2
               in if \<not> written then (Some OSError, (r, w3))
                  else (None, (r, w3\<lparr>state_file := Some (Dumps j)\<rparr>))))"

definition save_state :: "'d env \<Rightarrow> 'd state \<Rightarrow> error option \<times> 'd state" where
  "save_state env s =
     (let state = state_dict env (fst s)
      in case write_state env state s of
           (None, s') \<Rightarrow> (None, s')
         | (Some e, s') \<Rightarrow> (None, log_error ''Failed to save state'' e s'))"

text \<open>\<^verbatim>\<open>datetime.fromisoformat(x)\<close> on whatever the dict held.\<close>

definition parse_datetime :: "'d env \<Rightarrow> json \<Rightarrow> error + 'd" where
  "parse_datetime env v = (case v of JStr t \<Rightarrow> fromisoformat env t | _ \<Rightarrow> Inl TypeError)"

text \<open>
  The body of the \<^verbatim>\<open>try\<close> in \<^verbatim>\<open>load_state\<close>. \<^verbatim>\<open>items_processed\<close> is assigned before
  \<^verbatim>\<open>last_update\<close> is looked at.
\<close>

definition read_state :: "'d env \<Rightarrow> 'd state \<Rightarrow> error option \<times> 'd state" where
  "read_state env s =
     (let r = fst s; (opened, w1) = call_out env OpenRead (snd s)
      in if \<not> opened then (Some OSError, (r, w1))
         else (let (was_read, w2) = call_out env ReadFile w1
               in if \<not> was_read then (Some OSError, (r, w2))
                  else (case state_file w2 of
                          None \<Rightarrow> (Some OSError, (r, w2))
                        | Some Garbled \<Rightarrow> (Some JSONDecodeError, (r, w2))
                        | Some (Dumps state) \<Rightarrow>
                            (case dict_get state ''items_processed'' (JInt 0) of
                               Inl e \<Rightarrow> (Some e, (r, w2))
                             | Inr n \<Rightarrow>
                                 (let r1 = r\<lparr>items_processed := n\<rparr>
                                  in case subscript state ''last_update'' of
                                       Inl e \<Rightarrow> (Some e, (r1, w2))
                                     | Inr v \<Rightarrow>
                                         if truthy v
                                         then (case parse_datetime env v of
                                                 Inl e \<Rightarrow> (Some e, (r1, w2))
                                               | Inr d \<Rightarrow> (None, (r1\<lparr>last_update := Some d\<rparr>, w2)))
                                         else (None, (r1\<lparr>last_update := None\<rparr>, w2)))))))"

definition load_state :: "'d env \<Rightarrow> 'd state \<Rightarrow> error option \<times> 'd state" where
  "load_state env s =
     (if state_file (snd s) \<noteq> None
      then (case read_state env s of
              (None, s') \<Rightarrow> (None, s')
            | (Some e, s') \<Rightarrow> (None, log_error ''Failed to load state'' e s'))
      else (None, s))"

subsection \<open>\<^verbatim>\<open>process_outbox\<close>\<close>

definition outbox_query :: "'d env \<Rightarrow> search_body" where
  "outbox_query env =
     \<lparr>q_term_outbox_sent = False, q_sort_created_at = Asc, q_size = polling_limit env\<rparr>"

definition message_body :: "hit \<Rightarrow> message" where
  "message_body h =
     \<lparr>msg_id = fst h, msg_title = title (snd h), msg_created_at = created_at (snd h)\<rparr>"

text \<open>
  The two assignments after a successful mark: \<^verbatim>\<open>self.items_processed += 1\<close> has given
  \<open>n\<close>, and \<^verbatim>\<open>self.last_update = datetime.now()\<close>.
\<close>

definition counted :: "'d env \<Rightarrow> json \<Rightarrow> 'd state \<Rightarrow> 'd state" where
  "counted env n s =
     ((fst s)\<lparr>items_processed := n, last_update := Some (now env (length (trace (snd s))))\<rparr>,
      snd s)"

text \<open>The body of the \<^verbatim>\<open>try\<close> inside the loop, for one hit.\<close>

definition publish_and_mark :: "'d env \<Rightarrow> hit \<Rightarrow> 'd state \<Rightarrow> error option \<times> 'd state" where
  "publish_and_mark env h s =
     (case publish_event env (message_body h) s of
        (Some e, s1) \<Rightarrow> (Some e, s1)
      | (None, s1) \<Rightarrow>
          (case es_partial_update env (fst h) s1 of
             (Some e, s2) \<Rightarrow> (Some e, s2)
           | (None, s2) \<Rightarrow>
               (case iadd1 (items_processed (fst s2)) of
                  Inl e \<Rightarrow> (Some e, s2)
                | Inr n \<Rightarrow> save_state env (counted env n s2))))"

text \<open>One turn of the loop: the \<^verbatim>\<open>try\<close> with its \<^verbatim>\<open>except Exception\<close>.\<close>

definition process_hit :: "'d env \<Rightarrow> hit \<Rightarrow> 'd state \<Rightarrow> 'd state" where
  "process_hit env h s =
     (case publish_and_mark env h s of
        (None, s') \<Rightarrow> s'
      | (Some e, s') \<Rightarrow> log_error ''Failed to publish item'' e s')"

fun process_hits :: "'d env \<Rightarrow> hit list \<Rightarrow> 'd state \<Rightarrow> 'd state" where
  "process_hits env [] s = s"
| "process_hits env (h # hs) s = process_hits env hs (process_hit env h s)"

definition process_outbox :: "'d env \<Rightarrow> 'd state \<Rightarrow> error option \<times> 'd state" where
  "process_outbox env s =
     (case es_search env (outbox_query env) s of
        (Inl e, s') \<Rightarrow> (Some e, s')
      | (Inr hits, s') \<Rightarrow> (None, process_hits env hits s'))"

subsection \<open>\<^verbatim>\<open>start\<close>, \<^verbatim>\<open>stop\<close> and \<^verbatim>\<open>info\<close>\<close>

text \<open>
  Running one step after another, as statements in sequence do: the first exception
  ends the sequence.
\<close>

fun in_sequence :: "('s \<Rightarrow> error option \<times> 's) list \<Rightarrow> 's \<Rightarrow> error option \<times> 's" where
  "in_sequence [] s = (None, s)"
| "in_sequence (f # fs) s =
     (case f s of (None, s') \<Rightarrow> in_sequence fs s' | (Some e, s') \<Rightarrow> (Some e, s'))"

definition connect_robust :: "'d env \<Rightarrow> 'd state \<Rightarrow> error option \<times> 'd state" where
  "connect_robust env s =
     (let (ok, w) = call_out env Connect (snd s)
      in if ok then (None, ((fst s)\<lparr>connection := Some Opened\<rparr>, w))
         else (Some AMQPError, (fst s, w)))"

definition open_channel :: "'d env \<Rightarrow> 'd state \<Rightarrow> error option \<times> 'd state" where
  "open_channel env s =
     (case connection (fst s) of
        None \<Rightarrow> (Some AttributeError, s)
      | Some c \<Rightarrow>
          (let (ok, w) = call_out env OpenChannel (snd s)
           in if c = Opened \<and> ok then (None, ((fst s)\<lparr>channel := Some Opened\<rparr>, w))
              else (Some AMQPError, (fst s, w))))"

definition declare_exchange :: "'d env \<Rightarrow> 'd state \<Rightarrow> error option \<times> 'd state" where
  "declare_exchange env s =
     (case channel (fst s) of
        None \<Rightarrow> (Some AttributeError, s)
      | Some c \<Rightarrow>
          (let (ok, w) = call_out env DeclareExchange (snd s)
           in if c = Opened \<and> ok then (None, ((fst s)\<lparr>exchange := Some ()\<rparr>, w))
              else (Some AMQPError, (fst s, w))))"

definition add_job :: "'d env \<Rightarrow> 'd state \<Rightarrow> error option \<times> 'd state" where
  "add_job env s =
     (let (ok, w) = call_out env AddJob (snd s)
      in if ok then (None, ((fst s)\<lparr>jobs := jobs (fst s) + 1\<rparr>, w))
         else (Some SchedulerError, (fst s, w)))"

definition scheduler_start :: "'d env \<Rightarrow> 'd state \<Rightarrow> error option \<times> 'd state" where
  "scheduler_start env s =
     (let (ok, w) = call_out env StartScheduler (snd s)
      in if ok then (None, ((fst s)\<lparr>scheduler_running := True\<rparr>, w))
         else (Some SchedulerError, (fst s, w)))"

definition start :: "'d env \<Rightarrow> 'd state \<Rightarrow> error option \<times> 'd state" where
  "start env =
     in_sequence [connect_robust env, open_channel env, declare_exchange env,
                  load_state env, add_job env, scheduler_start env]"

definition channel_close :: "'d env \<Rightarrow> 'd state \<Rightarrow> error option \<times> 'd state" where
  "channel_close env s =
     (case channel (fst s) of
        None \<Rightarrow> (Some AttributeError, s)
      | Some _ \<Rightarrow>
          (let (ok, w) = call_out env CloseChannel (snd s)
           in if ok then (None, ((fst s)\<lparr>channel := Some Closed\<rparr>, w))
              else (Some AMQPError, (fst s, w))))"

definition connection_close :: "'d env \<Rightarrow> 'd state \<Rightarrow> error option \<times> 'd state" where
  "connection_close env s =
     (case connection (fst s) of
        None \<Rightarrow> (Some AttributeError, s)
      | Some _ \<Rightarrow>
          (let (ok, w) = call_out env CloseConnection (snd s)
           in if ok then (None, ((fst s)\<lparr>connection := Some Closed\<rparr>, w))
              else (Some AMQPError, (fst s, w))))"

definition es_close :: "'d env \<Rightarrow> 'd state \<Rightarrow> error option \<times> 'd state" where
  "es_close env s =
     (let (ok, w) = call_out env CloseEs (snd s)
      in if ok then (None, ((fst s)\<lparr>es := Closed\<rparr>, w))
         else (Some TransportError, (fst s, w)))"

definition scheduler_shutdown :: "'d env \<Rightarrow> 'd state \<Rightarrow> error option \<times> 'd state" where
  "scheduler_shutdown env s =
     (let (ok, w) = call_out env ShutdownScheduler (snd s)
      in if ok then (None, ((fst s)\<lparr>scheduler_running := False\<rparr>, w))
         else (Some SchedulerError, (fst s, w)))"

definition stop :: "'d env \<Rightarrow> 'd state \<Rightarrow> error option \<times> 'd state" where
  "stop env =
     in_sequence [save_state env, channel_close env, connection_close env,
                  es_close env, scheduler_shutdown env]"

text \<open>\<^verbatim>\<open>stop\<close> up to its last statement, the shutdown of the scheduler.\<close>

definition stop_before_shutdown :: "'d env \<Rightarrow> 'd state \<Rightarrow> error option \<times> 'd state" where
  "stop_before_shutdown env =
     in_sequence [save_state env, channel_close env, connection_close env, es_close env]"

definition info :: "'d relay \<Rightarrow> json \<times> 'd option" where
  "info r = (items_processed r, last_update r)"


subsection \<open>What the properties observe\<close>

text \<open>The \<^verbatim>\<open>outbox_sent\<close> flag of the document with a given id, if the index has one.\<close>

definition sent_flag :: "world \<Rightarrow> string \<Rightarrow> bool option" where
  "sent_flag w i = map_option outbox_sent (map_of (auction_items w) i)"

text \<open>
  The index after, against the index before: the same documents under the same ids, each
  one either as it was or as it was with \<^verbatim>\<open>outbox_sent\<close> set to true.
\<close>

definition only_marks :: "hit list \<Rightarrow> hit list \<Rightarrow> bool" where
  "only_marks before after =
     list_all2 (\<lambda>h h'. fst h' = fst h
                  \<and> (snd h' = snd h \<or> snd h' = (snd h)\<lparr>outbox_sent := True\<rparr>))
       before after"

text \<open>The messages handed to the exchange, in order, whether or not it took them.\<close>

fun publishes :: "call list \<Rightarrow> message list" where
  "publishes [] = []"
| "publishes (Publish m # cs) = m # publishes cs"
| "publishes (c # cs) = publishes cs"

text \<open>The ids the relay asked the index to mark, in order.\<close>

fun updates :: "call list \<Rightarrow> string list" where
  "updates [] = []"
| "updates (Update i # cs) = i # updates cs"
| "updates (c # cs) = updates cs"

text \<open>The calls a step makes: what it appends to the trace.\<close>

definition calls_made :: "('d state \<Rightarrow> error option \<times> 'd state) \<Rightarrow> 'd state \<Rightarrow> call list" where
  "calls_made f s = drop (length (trace (snd s))) (trace (snd (snd (f s))))"



subsection \<open>A standard library to run the relay with\<close>

text \<open>
  Naive datetimes as CPython prints them: \<^verbatim>\<open>YYYY-MM-DDTHH:MM:SS\<close>, followed by
  \<^verbatim>\<open>.ffffff\<close> when the microseconds are not zero. \<open>naive_fromisoformat\<close> reads these
  two shapes back and nothing else; it serves as the \<open>fromisoformat\<close> of the example
  runs below, the theorems are about any \<open>fromisoformat\<close>.
\<close>

record datetime =
  year :: nat
  month :: nat
  day :: nat
  hour :: nat
  minute :: nat
  second :: nat
  microsecond :: nat

definition digit_char :: "nat \<Rightarrow> char" where
  "digit_char k = ''0123456789'' ! k"

definition digit_value :: "char \<Rightarrow> nat option" where
  "digit_value c = map_of (zip ''0123456789'' [0 ..< 10]) c"

text \<open>\<^verbatim>\<open>'%0wd' % n\<close> for \<open>n < 10 ^ w\<close>.\<close>

fun digits :: "nat \<Rightarrow> nat \<Rightarrow> string" where
  "digits 0 n = []"
| "digits (Suc w) n = digits w (n div 10) @ [digit_char (n mod 10)]"

fun number_from :: "nat \<Rightarrow> string \<Rightarrow> nat option" where
  "number_from a [] = Some a"
| "number_from a (c # cs) =
     (case digit_value c of None \<Rightarrow> None | Some v \<Rightarrow> number_from (10 * a + v) cs)"

definition number :: "string \<Rightarrow> nat option" where
  "number cs = (if cs = [] then None else number_from 0 cs)"

definition is_leap :: "nat \<Rightarrow> bool" where
  "is_leap y \<longleftrightarrow> y mod 4 = 0 \<and> (y mod 100 \<noteq> 0 \<or> y mod 400 = 0)"

definition days_in_month :: "nat \<Rightarrow> nat \<Rightarrow> nat" where
  "days_in_month y m =
     (if m = 2 then (if is_leap y then 29 else 28)
      else if m = 4 \<or> m = 6 \<or> m = 9 \<or> m = 11 then 30 else 31)"

definition valid_datetime :: "datetime \<Rightarrow> bool" where
  "valid_datetime d \<longleftrightarrow>
     1 \<le> year d \<and> year d \<le> 9999 \<and> 1 \<le> month d \<and> month d \<le> 12
     \<and> 1 \<le> day d \<and> day d \<le> days_in_month (year d) (month d)
     \<and> hour d < 24 \<and> minute d < 60 \<and> second d < 60 \<and> microsecond d < 1000000"

definition naive_isoformat :: "datetime \<Rightarrow> string" where
  "naive_isoformat d =
     digits 4 (year d) @ ''-'' @ digits 2 (month d) @ ''-'' @ digits 2 (day d) @ ''T''
     @ digits 2 (hour d) @ '':'' @ digits 2 (minute d) @ '':'' @ digits 2 (second d)
     @ (if microsecond d = 0 then [] else ''.'' @ digits 6 (microsecond d))"

definition slice :: "nat \<Rightarrow> nat \<Rightarrow> 'a list \<Rightarrow> 'a list" where
  "slice i j xs = take (j - i) (drop i xs)"

definition fields :: "string \<Rightarrow> datetime option" where
  "fields t =
     Option.bind (number (slice 0 4 t)) (\<lambda>y.
     Option.bind (number (slice 5 7 t)) (\<lambda>mo.
     Option.bind (number (slice 8 10 t)) (\<lambda>dd.
     Option.bind (number (slice 11 13 t)) (\<lambda>h.
     Option.bind (number (slice 14 16 t)) (\<lambda>mi.
     Option.bind (number (slice 17 19 t)) (\<lambda>s.
     Option.bind (if length t = 19 then Some 0 else number (slice 20 26 t)) (\<lambda>us.
       Some \<lparr>year = y, month = mo, day = dd, hour = h, minute = mi,
             second = s, microsecond = us\<rparr>)))))))"

definition naive_fromisoformat :: "string \<Rightarrow> error + datetime" where
  "naive_fromisoformat t =
     (if (length t = 19 \<or> length t = 26 \<and> slice 19 20 t = ''.'')
         \<and> slice 4 5 t = ''-'' \<and> slice 7 8 t = ''-'' \<and> slice 10 11 t = ''T''
         \<and> slice 13 14 t = '':'' \<and> slice 16 17 t = '':''
      then (case fields t of
              None \<Rightarrow> Inl ValueError
            | Some d \<Rightarrow> if valid_datetime d then Inr d else Inl ValueError)
      else Inl ValueError)"

subsection \<open>An example deployment\<close>

text \<open>
  Five unsent documents created at instants 1 to 5 and stored out of order, a batch
  limit of 3, a clock, and no state file yet. \<open>calm\<close> is an environment in which no
  call fails; \<open>failing_at ns\<close> one in which exactly the calls numbered in \<open>ns\<close> fail.
\<close>

definition clock :: "nat \<Rightarrow> datetime" where
  "clock n = \<lparr>year = 2024, month = 5, day = 17, hour = 9, minute = 30,
              second = n mod 60, microsecond = 0\<rparr>"

definition failing_at :: "nat list \<Rightarrow> datetime env" where
  "failing_at ns = \<lparr>polling_limit = 3, fails = (\<lambda>n. n \<in> set ns), now = clock,
     isoformat = naive_isoformat, fromisoformat = naive_fromisoformat\<rparr>"

definition calm :: "datetime env" where
  "calm = failing_at []"

definition job :: "nat \<Rightarrow> outbox_doc" where
  "job t = \<lparr>title = ''Job 1000'', description = ''Description for job'', price = 42,
            created_at = t, outbox_sent = False\<rparr>"

definition seeded :: world where
  "seeded = \<lparr>auction_items = [(''d'', job 4), (''a'', job 1), (''e'', job 5), (''c'', job 3),
                               (''b'', job 2)],
     max_result_window = 10000, delivered = [], state_file = None, trace = [],
     errors_logged = []\<rparr>"

text \<open>The relay as \<^verbatim>\<open>start\<close> leaves it when nothing fails.\<close>

definition running :: "datetime relay" where
  "running = \<lparr>connection = Some Opened, channel = Some Opened, exchange = Some (), jobs = 1,
     scheduler_running = True, es = Opened, items_processed = JInt 0, last_update = None\<rparr>"

text \<open>
  The oldest document of the example as a hit, the relay about to run a poll cycle, and
  a relay that has already counted seven documents.
\<close>

definition oldest :: hit where
  "oldest = (''a'', job 1)"

definition ready :: "datetime state" where
  "ready = (running, seeded)"

text \<open>The example after the publish and the mark of the oldest document.\<close>

definition marked :: "datetime env \<Rightarrow> datetime state" where
  "marked env =
     snd (es_partial_update env (fst oldest)
            (snd (publish_event env (message_body oldest) ready)))"

definition progressed :: "datetime relay" where
  "progressed = running\<lparr>items_processed := JInt 7, last_update := Some (clock 30)\<rparr>"

section \<open>Properties\<close>

subsection \<open>Unfolding the model\<close>

lemmas steps = es_search_def search_answered_def matching_def outbox_query_def
  es_partial_update_def mark_sent_def publish_event_def state_dict_def write_state_def
  save_state_def parse_datetime_def read_state_def load_state_def message_body_def
  counted_def publish_and_mark_def process_hit_def process_outbox_def connect_robust_def
  open_channel_def declare_exchange_def add_job_def scheduler_start_def start_def
  channel_close_def connection_close_def es_close_def scheduler_shutdown_def stop_def
  stop_before_shutdown_def call_out_def log_error_def Let_def

lemmas scene = calm_def failing_at_def running_def seeded_def job_def clock_def oldest_def
  ready_def

subsection \<open>The example library reads back what it prints\<close>

lemma digit_value_simps:
  "digit_value CHR ''0'' = Some 0" "digit_value CHR ''1'' = Some 1"
  "digit_value CHR ''2'' = Some 2" "digit_value CHR ''3'' = Some 3"
  "digit_value CHR ''4'' = Some 4" "digit_value CHR ''5'' = Some 5"
  "digit_value CHR ''6'' = Some 6" "digit_value CHR ''7'' = Some 7"
  "digit_value CHR ''8'' = Some 8" "digit_value CHR ''9'' = Some 9"
  by (simp_all add: digit_value_def upt_rec)

lemma digit_char_simps:
  "digit_char 0 = CHR ''0''" "digit_char (Suc 0) = CHR ''1''" "digit_char 1 = CHR ''1''"
  "digit_char 2 = CHR ''2''" "digit_char 3 = CHR ''3''" "digit_char 4 = CHR ''4''"
  "digit_char 5 = CHR ''5''" "digit_char 6 = CHR ''6''" "digit_char 7 = CHR ''7''"
  "digit_char 8 = CHR ''8''" "digit_char 9 = CHR ''9''"
  by (simp_all add: digit_char_def)

lemma digit_value_digit_char:
  assumes "k < 10"
  shows "digit_value (digit_char k) = Some k"
proof -
  from assms have "k \<in> {0, 1, 2, 3, 4, 5, 6, 7, 8, 9}" by auto
  then show ?thesis by (auto simp: digit_char_simps digit_value_simps)
qed

lemma digits_numeral:
  "digits (numeral k) n = digits (pred_numeral k) (n div 10) @ [digit_char (n mod 10)]"
  by (subst numeral_eq_Suc) simp

lemma length_digits: "length (digits w n) = w"
  by (induction w arbitrary: n) auto

lemma number_from_digits:
  "number_from a (digits w n @ cs) = number_from (a * 10 ^ w + n mod 10 ^ w) cs"
proof (induction w arbitrary: n cs)
  case 0
  then show ?case by simp
next
  case (Suc w)
  have "n mod (10 * 10 ^ w) = 10 * (n div 10 mod 10 ^ w) + n mod 10"
    by (simp add: mod_mult2_eq)
  with Suc show ?case
    by (simp add: digit_value_digit_char algebra_simps)
qed

lemma number_digits:
  assumes "0 < w" and "n < 10 ^ w"
  shows "number (digits w n) = Some n"
proof -
  have "digits w n \<noteq> []"
    using assms(1) length_digits [of w n] by auto
  then show ?thesis
    using number_from_digits [of 0 w n "[]"] assms(2) by (simp add: number_def)
qed

lemma naive_isoformat_nonempty: "naive_isoformat d \<noteq> []"
  by (simp add: naive_isoformat_def)

lemma naive_fromisoformat_isoformat:
  assumes "valid_datetime d"
  shows "naive_fromisoformat (naive_isoformat d) = Inr d"
proof -
  have n: "number (digits 4 (year d)) = Some (year d)"
     "number (digits 2 (month d)) = Some (month d)"
     "number (digits 2 (day d)) = Some (day d)"
     "number (digits 2 (hour d)) = Some (hour d)"
     "number (digits 2 (minute d)) = Some (minute d)"
     "number (digits 2 (second d)) = Some (second d)"
     "number (digits 6 (microsecond d)) = Some (microsecond d)"
    using assms
    by (auto intro!: number_digits simp: valid_datetime_def days_in_month_def split: if_splits)
  have f: "fields (naive_isoformat d) = Some d"
    by (simp add: fields_def naive_isoformat_def slice_def n length_digits)
  show ?thesis
    using assms
    by (simp add: naive_fromisoformat_def f)
       (simp add: naive_isoformat_def slice_def length_digits)
qed

lemmas clock_text = naive_isoformat_def digits_numeral digit_char_simps

subsection \<open>What each call leaves behind\<close>

lemma es_search_world:
  "snd (snd (es_search env q s)) = (snd s)\<lparr>trace := trace (snd s) @ [Search q]\<rparr>"
  by (simp add: es_search_def call_out_def Let_def)

lemma es_search_relay: "fst (snd (es_search env q s)) = fst s"
  by (simp add: es_search_def call_out_def Let_def)

lemma es_search_result:
  "fst (es_search env q s) =
     (if search_answered env q s then Inr (matching q (auction_items (snd s)))
      else Inl TransportError)"
  by (simp add: es_search_def call_out_def Let_def)

lemma publish_event_None:
  assumes "publish_event env m s = (None, s1)"
  shows "s1 = (fst s, (snd s)\<lparr>trace := trace (snd s) @ [Publish m],
                              delivered := delivered (snd s) @ [m]\<rparr>)"
    and "exchange (fst s) \<noteq> None" and "channel (fst s) = Some Opened"
    and "\<not> fails env (length (trace (snd s)))"
  using assms
  by (auto simp: publish_event_def call_out_def Let_def split: option.splits if_splits)

lemma publish_event_Some:
  assumes "publish_event env m s = (Some e, s1)"
  shows "fst s1 = fst s" and "auction_items (snd s1) = auction_items (snd s)"
    and "state_file (snd s1) = state_file (snd s)"
    and "delivered (snd s1) = delivered (snd s)"
  using assms
  by (auto simp: publish_event_def call_out_def Let_def split: option.splits if_splits)

lemma publish_event_calls:
  assumes "exchange (fst s) \<noteq> None"
  shows "trace (snd (snd (publish_event env m s))) = trace (snd s) @ [Publish m]"
    and "delivered (snd (snd (publish_event env m s)))
           = delivered (snd s) @ (if fst (publish_event env m s) = None then [m] else [])"
  using assms
  by (auto simp: publish_event_def call_out_def Let_def split: option.splits)

lemma publish_event_index:
  "auction_items (snd (snd (publish_event env m s))) = auction_items (snd s)"
  by (auto simp: publish_event_def call_out_def Let_def split: option.splits)

lemma es_partial_update_None:
  assumes "es_partial_update env i s = (None, s2)"
  shows "s2 = (fst s, (snd s)\<lparr>trace := trace (snd s) @ [Update i],
                              auction_items := mark_sent i (auction_items (snd s))\<rparr>)"
    and "i \<in> fst ` set (auction_items (snd s))"
  using assms
  by (auto simp: es_partial_update_def call_out_def Let_def split: if_splits)

lemma es_partial_update_calls:
  "trace (snd (snd (es_partial_update env i s))) = trace (snd s) @ [Update i]"
  "delivered (snd (snd (es_partial_update env i s))) = delivered (snd s)"
  by (auto simp: es_partial_update_def call_out_def Let_def)

lemma map_of_mark_sent:
  "map_of (mark_sent i ds) j =
     (if j = i then map_option (\<lambda>d. d\<lparr>outbox_sent := True\<rparr>) (map_of ds j) else map_of ds j)"
  by (induction ds) (auto simp: mark_sent_def)

lemma sent_flag_mark_sent:
  assumes "i \<in> fst ` set (auction_items w)"
  shows "sent_flag (w\<lparr>auction_items := mark_sent i (auction_items w)\<rparr>) i = Some True"
proof -
  from assms obtain d where "map_of (auction_items w) i = Some d"
    by (cases "map_of (auction_items w) i") (auto simp: map_of_eq_None_iff)
  then show ?thesis
    by (simp add: sent_flag_def map_of_mark_sent)
qed

lemma publishes_append: "publishes (xs @ ys) = publishes xs @ publishes ys"
  by (induction xs rule: publishes.induct) auto

lemma updates_append: "updates (xs @ ys) = updates xs @ updates ys"
  by (induction xs rule: updates.induct) auto

lemma write_state_None:
  assumes "write_state env j s = (None, s1)"
  shows "s1 = (fst s, (snd s)\<lparr>trace := trace (snd s) @ [OpenWrite, WriteFile (Dumps j)],
                              state_file := Some (Dumps j)\<rparr>)"
  using assms
  by (auto simp: write_state_def call_out_def Let_def split: if_splits)

lemma write_state_Some:
  assumes "write_state env j s = (Some e, s1)"
  shows "fst s1 = fst s" and "auction_items (snd s1) = auction_items (snd s)"
    and "errors_logged (snd s1) = errors_logged (snd s)"
  using assms
  by (auto simp: write_state_def call_out_def Let_def split: if_splits)

lemma write_state_frame:
  "fst (snd (write_state env j s)) = fst s"
  "auction_items (snd (snd (write_state env j s))) = auction_items (snd s)"
  "delivered (snd (snd (write_state env j s))) = delivered (snd s)"
  by (auto simp: write_state_def call_out_def Let_def split: if_splits)

lemma write_state_calls:
  "\<exists>cs. trace (snd (snd (write_state env j s))) = trace (snd s) @ cs
        \<and> publishes cs = [] \<and> updates cs = []"
  by (auto simp: write_state_def call_out_def Let_def split: if_splits)

lemma save_state_returns: "fst (save_state env s) = None"
  by (simp add: save_state_def Let_def split: prod.splits option.splits)

lemma save_state_written:
  assumes "write_state env (state_dict env (fst s)) s = (None, s1)"
  shows "save_state env s = (None, s1)"
  using assms by (simp add: save_state_def)

lemma save_state_frame:
  "fst (snd (save_state env s)) = fst s"
  "auction_items (snd (snd (save_state env s))) = auction_items (snd s)"
  "delivered (snd (snd (save_state env s))) = delivered (snd s)"
  using write_state_frame [of env "state_dict env (fst s)" s]
  by (auto simp: save_state_def log_error_def Let_def split: prod.splits option.splits)

lemma save_state_calls:
  "\<exists>cs. trace (snd (snd (save_state env s))) = trace (snd s) @ cs
        \<and> publishes cs = [] \<and> updates cs = []"
  using write_state_calls [of env "state_dict env (fst s)" s]
  by (auto simp: save_state_def log_error_def Let_def split: prod.splits option.splits)

lemma load_state_returns: "fst (load_state env s) = None"
  by (simp add: load_state_def split: prod.splits option.splits)

lemma load_state_index:
  "auction_items (snd (snd (load_state env s))) = auction_items (snd s)"
  by (auto simp: load_state_def read_state_def log_error_def call_out_def Let_def
        split: prod.splits option.splits sum.splits file_text.splits if_splits)

lemma in_sequence_keeps:
  assumes "\<And>f s. f \<in> set fs \<Longrightarrow> g (snd (f s)) = g s"
  shows "g (snd (in_sequence fs s)) = g s"
  using assms
proof (induction fs arbitrary: s)
  case Nil
  then show ?case by simp
next
  case (Cons f fs)
  obtain e s' where fs: "f s = (e, s')" by (metis prod.collapse)
  have "g s' = g s" using Cons.prems [of f s] fs by simp
  moreover have "g (snd (in_sequence fs s')) = g s'"
    using Cons.prems by (intro Cons.IH) simp
  ultimately show ?case using fs by (cases e) simp_all
qed


subsection \<open>The batch of a poll cycle\<close>

lemma matching_outbox:
  "matching (outbox_query env) ds =
     take (nat (polling_limit env))
       (sort_key (\<lambda>h. created_at (snd h)) (filter (\<lambda>h. \<not> outbox_sent (snd h)) ds))"
  by (simp add: matching_def outbox_query_def)

text \<open>
  C3. A batch that the search of \<^verbatim>\<open>process_outbox\<close> returns has at most
  \<^verbatim>\<open>POLLING_LIMIT\<close> hits, each of them a document of the index with
  \<^verbatim>\<open>outbox_sent\<close> false, in non-decreasing order of \<^verbatim>\<open>created_at\<close>, and the
  search leaves the index as it was. When Elasticsearch answers the search and no
  document is unsent, the answer is the empty batch, not an error.
\<close>

theorem batch_bounded_unsent_oldest_first:
  "(es_search env (outbox_query env) s = (Inr batch, s') \<longrightarrow>
      int (length batch) \<le> polling_limit env
      \<and> (\<forall>h \<in> set batch. h \<in> set (auction_items (snd s)) \<and> outbox_sent (snd h) = False)
      \<and> sorted (map (\<lambda>h. created_at (snd h)) batch)
      \<and> auction_items (snd s') = auction_items (snd s))
   \<and> (search_answered env (outbox_query env) s
        \<and> (\<forall>h \<in> set (auction_items (snd s)). outbox_sent (snd h)) \<longrightarrow>
      fst (es_search env (outbox_query env) s) = Inr [])"
proof (intro conjI impI)
  assume a: "es_search env (outbox_query env) s = (Inr batch, s')"
  let ?q = "outbox_query env"
  from a have ans: "search_answered env ?q s"
    using es_search_result [of env ?q s] by (auto split: if_splits)
  from a have b: "batch = matching ?q (auction_items (snd s))"
    using es_search_result [of env ?q s] ans by simp
  from a have w: "snd s' = (snd s)\<lparr>trace := trace (snd s) @ [Search ?q]\<rparr>"
    using es_search_world [of env ?q s] by simp
  from ans have nonneg: "0 \<le> polling_limit env"
    by (simp add: search_answered_def outbox_query_def)
  show "int (length batch) \<le> polling_limit env"
    using nonneg by (simp add: b matching_outbox)
  show "\<forall>h \<in> set batch. h \<in> set (auction_items (snd s)) \<and> outbox_sent (snd h) = False"
    by (auto simp: b matching_outbox dest!: in_set_takeD)
  show "sorted (map (\<lambda>h. created_at (snd h)) batch)"
    unfolding b matching_outbox
    by (simp add: take_map [symmetric])
  show "auction_items (snd s') = auction_items (snd s)"
    by (simp add: w)
next
  assume "search_answered env (outbox_query env) s
        \<and> (\<forall>h \<in> set (auction_items (snd s)). outbox_sent (snd h))"
  then show "fst (es_search env (outbox_query env) s) = Inr []"
    by (simp add: es_search_result matching_outbox filter_empty_conv)
qed

theorem batch_bounded_unsent_oldest_first_witness:
  "es_search calm (outbox_query calm) ready
     = (Inr [(''a'', job 1), (''b'', job 2), (''c'', job 3)],
        (running, seeded\<lparr>trace := [Search (outbox_query calm)]\<rparr>))
   \<and> int (length [(''a'', job 1), (''b'', job 2), (''c'', job 3)]) \<le> polling_limit calm
   \<and> set [(''a'', job 1), (''b'', job 2), (''c'', job 3)] \<subseteq> set (auction_items seeded)
   \<and> map (\<lambda>h. outbox_sent (snd h)) [(''a'', job 1), (''b'', job 2), (''c'', job 3)]
       = [False, False, False]
   \<and> sorted (map (\<lambda>h. created_at (snd h)) [(''a'', job 1), (''b'', job 2), (''c'', job 3)])
   \<and> search_answered calm (outbox_query calm)
        (running, seeded\<lparr>auction_items := [(''a'', (job 1)\<lparr>outbox_sent := True\<rparr>)]\<rparr>)
   \<and> map (\<lambda>h. outbox_sent (snd h)) [(''a'', (job 1)\<lparr>outbox_sent := True\<rparr>)] = [True]
   \<and> fst (es_search calm (outbox_query calm)
        (running, seeded\<lparr>auction_items := [(''a'', (job 1)\<lparr>outbox_sent := True\<rparr>)]\<rparr>))
       = Inr []"
proof -
  have first_batch: "es_search calm (outbox_query calm) ready
     = (Inr [(''a'', job 1), (''b'', job 2), (''c'', job 3)],
        (running, seeded\<lparr>trace := [Search (outbox_query calm)]\<rparr>))"
    by (simp add: steps scene)
  have answered: "search_answered calm (outbox_query calm)
        (running, seeded\<lparr>auction_items := [(''a'', (job 1)\<lparr>outbox_sent := True\<rparr>)]\<rparr>)"
    by (simp add: search_answered_def outbox_query_def scene)
  show ?thesis
    using first_batch answered
      batch_bounded_unsent_oldest_first [of calm ready
        "[(''a'', job 1), (''b'', job 2), (''c'', job 3)]"
        "(running, seeded\<lparr>trace := [Search (outbox_query calm)]\<rparr>)"]
      batch_bounded_unsent_oldest_first [of calm
        "(running, seeded\<lparr>auction_items := [(''a'', (job 1)\<lparr>outbox_sent := True\<rparr>)]\<rparr>)"]
    by (simp add: ready_def)
qed

subsection \<open>One record of the batch\<close>

lemma process_hit_publish_fails:
  assumes "publish_event env (message_body h) s = (Some e, s1)"
  shows "process_hit env h s = log_error ''Failed to publish item'' e s1"
  using assms by (simp add: process_hit_def publish_and_mark_def)

lemma publish_and_mark_ok:
  assumes pub: "publish_event env (message_body h) s = (None, s1)"
    and upd: "es_partial_update env (fst h) s1 = (None, s2)"
    and cnt: "items_processed (fst s) = JInt n"
  shows "process_hit env h s = snd (save_state env (counted env (JInt (n + 1)) s2))"
proof -
  have "fst s2 = fst s"
    using publish_event_None(1) [OF pub] es_partial_update_None(1) [OF upd] by simp
  then have "iadd1 (items_processed (fst s2)) = Inr (JInt (n + 1))"
    by (simp add: cnt)
  then have pm: "publish_and_mark env h s = save_state env (counted env (JInt (n + 1)) s2)"
    by (simp add: publish_and_mark_def pub upd)
  obtain s' where "publish_and_mark env h s = (None, s')"
    using save_state_returns [of env] by (metis pm prod.collapse)
  then show ?thesis
    using pm by (simp add: process_hit_def)
qed

lemma marked_after_update:
  assumes "es_partial_update env i s1 = (None, s2)"
  shows "sent_flag (snd s2) i = Some True"
  using es_partial_update_None [OF assms] sent_flag_mark_sent [of i "snd s1"]
  by (simp add: sent_flag_def)




text \<open>
  C2. For a record of the batch: if the publish raises, the record's \<^verbatim>\<open>outbox_sent\<close>
  flag in the store, \<^verbatim>\<open>items_processed\<close> and \<^verbatim>\<open>last_update\<close> are what they were, and
  the documents the next search would return are the same as before, so the record is
  still a candidate.
\<close>

theorem publish_fails_record_untouched:
  assumes "publish_event env (message_body h) s = (Some e, s1)"
  shows "sent_flag (snd (process_hit env h s)) (fst h) = sent_flag (snd s) (fst h)
       \<and> items_processed (fst (process_hit env h s)) = items_processed (fst s)
       \<and> last_update (fst (process_hit env h s)) = last_update (fst s)
       \<and> matching (outbox_query env) (auction_items (snd (process_hit env h s)))
           = matching (outbox_query env) (auction_items (snd s))"
  using publish_event_Some [OF assms]
  by (simp add: process_hit_publish_fails [OF assms] log_error_def sent_flag_def)

theorem publish_fails_record_untouched_witness:
  "publish_event (failing_at [0]) (message_body oldest) ready
     = (Some AMQPError, snd (publish_event (failing_at [0]) (message_body oldest) ready))
   \<and> sent_flag (snd ready) (fst oldest) = Some False
   \<and> sent_flag (snd (process_hit (failing_at [0]) oldest ready)) (fst oldest) = Some False
   \<and> items_processed (fst (process_hit (failing_at [0]) oldest ready)) = JInt 0
   \<and> last_update (fst (process_hit (failing_at [0]) oldest ready)) = None
   \<and> matching (outbox_query (failing_at [0]))
        (auction_items (snd (process_hit (failing_at [0]) oldest ready)))
       = [(''a'', job 1), (''b'', job 2), (''c'', job 3)]"
proof -
  have pub: "publish_event (failing_at [0]) (message_body oldest) ready
     = (Some AMQPError, snd (publish_event (failing_at [0]) (message_body oldest) ready))"
    by (simp add: steps scene)
  have before: "sent_flag (snd ready) (fst oldest) = Some False"
    "items_processed (fst ready) = JInt 0" "last_update (fst ready) = None"
    "matching (outbox_query (failing_at [0])) (auction_items (snd ready))
       = [(''a'', job 1), (''b'', job 2), (''c'', job 3)]"
    by (simp_all add: sent_flag_def matching_def outbox_query_def scene)
  show ?thesis
    using publish_fails_record_untouched [OF pub] pub before by simp
qed

subsection \<open>The whole batch\<close>

lemma process_hit_exchange: "exchange (fst (process_hit env h s)) = exchange (fst s)"
proof -
  have "exchange (fst (snd (publish_and_mark env h s))) = exchange (fst s)"
    using save_state_frame(1) [of env]
    by (auto simp: publish_and_mark_def publish_event_def es_partial_update_def call_out_def
          counted_def Let_def split: prod.splits option.splits sum.splits if_splits)
  then show ?thesis
    by (auto simp: process_hit_def log_error_def split: prod.splits option.splits)
qed

lemma publish_and_mark_calls:
  assumes "exchange (fst s) \<noteq> None"
  shows "\<exists>cs ds. trace (snd (snd (publish_and_mark env h s))) = trace (snd s) @ cs
            \<and> delivered (snd (snd (publish_and_mark env h s))) = delivered (snd s) @ ds
            \<and> publishes cs = [message_body h] \<and> updates cs = map msg_id ds"
proof -
  let ?m = "message_body h"
  obtain e1 s1 where pub: "publish_event env ?m s = (e1, s1)"
    by (metis prod.collapse)
  obtain e2 s2 where upd: "es_partial_update env (fst h) s1 = (e2, s2)"
    by (metis prod.collapse)
  have t1: "trace (snd s1) = trace (snd s) @ [Publish ?m]"
    and d1: "delivered (snd s1) = delivered (snd s) @ (if e1 = None then [?m] else [])"
    using publish_event_calls [OF assms, of env ?m] pub by simp_all
  have t2: "trace (snd s2) = trace (snd s) @ [Publish ?m, Update (fst h)]"
    and d2: "delivered (snd s2) = delivered (snd s1)"
    using es_partial_update_calls [of env "fst h" s1] upd t1 by simp_all
  have id: "msg_id ?m = fst h"
    by (simp add: message_body_def)
  show ?thesis
  proof (cases e1)
    case (Some e)
    then have "publish_and_mark env h s = (Some e, s1)"
      using pub by (simp add: publish_and_mark_def)
    then show ?thesis using t1 d1 Some by simp
  next
    case None
    note ok1 = this
    show ?thesis
    proof (cases e2)
      case (Some e)
      then have "publish_and_mark env h s = (Some e, s2)"
        using pub ok1 upd by (simp add: publish_and_mark_def)
      then show ?thesis using t2 d1 d2 ok1 id by simp
    next
      case None
      note ok2 = this
      show ?thesis
      proof (cases "iadd1 (items_processed (fst s2))")
        case (Inl e)
        then have "publish_and_mark env h s = (Some e, s2)"
          using pub ok1 upd ok2 by (simp add: publish_and_mark_def)
        then show ?thesis using t2 d1 d2 ok1 id by simp
      next
        case (Inr n)
        let ?c = "counted env n s2"
        have pm: "publish_and_mark env h s = save_state env ?c"
          using pub ok1 upd ok2 Inr by (simp add: publish_and_mark_def)
        obtain cs where "trace (snd (snd (save_state env ?c))) = trace (snd ?c) @ cs"
          and "publishes cs = []" and "updates cs = []"
          using save_state_calls [of env ?c] by blast
        moreover have "delivered (snd (snd (save_state env ?c))) = delivered (snd s2)"
          using save_state_frame(3) [of env ?c] by (simp add: counted_def)
        ultimately show ?thesis
          using pm t2 d1 d2 ok1 id
          by (simp add: publishes_append updates_append counted_def)
      qed
    qed
  qed
qed

lemma process_hit_calls:
  assumes "exchange (fst s) \<noteq> None"
  shows "\<exists>cs ds. trace (snd (process_hit env h s)) = trace (snd s) @ cs
            \<and> delivered (snd (process_hit env h s)) = delivered (snd s) @ ds
            \<and> publishes cs = [message_body h] \<and> updates cs = map msg_id ds"
proof -
  have "trace (snd (process_hit env h s)) = trace (snd (snd (publish_and_mark env h s)))"
    and "delivered (snd (process_hit env h s))
           = delivered (snd (snd (publish_and_mark env h s)))"
    by (auto simp: process_hit_def log_error_def split: prod.splits option.splits)
  then show ?thesis
    using publish_and_mark_calls [OF assms, of env h] by simp
qed

lemma process_hits_calls:
  assumes "exchange (fst s) \<noteq> None"
  shows "\<exists>cs ds. trace (snd (process_hits env hs s)) = trace (snd s) @ cs
            \<and> delivered (snd (process_hits env hs s)) = delivered (snd s) @ ds
            \<and> publishes cs = map message_body hs \<and> updates cs = map msg_id ds"
  using assms
proof (induction hs arbitrary: s)
  case Nil
  then show ?case by simp
next
  case (Cons h hs)
  let ?s = "process_hit env h s"
  obtain cs ds where 1: "trace (snd ?s) = trace (snd s) @ cs"
      "delivered (snd ?s) = delivered (snd s) @ ds"
      "publishes cs = [message_body h]" "updates cs = map msg_id ds"
    using process_hit_calls [OF Cons.prems, of env h] by blast
  have "exchange (fst ?s) \<noteq> None"
    using Cons.prems by (simp add: process_hit_exchange)
  from Cons.IH [OF this]
  obtain cs' ds' where 2: "trace (snd (process_hits env hs ?s)) = trace (snd ?s) @ cs'"
      "delivered (snd (process_hits env hs ?s)) = delivered (snd ?s) @ ds'"
      "publishes cs' = map message_body hs" "updates cs' = map msg_id ds'"
    by blast
  have "trace (snd (process_hits env (h # hs) s)) = trace (snd s) @ (cs @ cs')"
    and "delivered (snd (process_hits env (h # hs) s)) = delivered (snd s) @ (ds @ ds')"
    and "publishes (cs @ cs') = map message_body (h # hs)"
    and "updates (cs @ cs') = map msg_id (ds @ ds')"
    using 1 2 by (simp_all add: publishes_append updates_append)
  then show ?case by blast
qed

lemma process_hits_publishes:
  assumes "exchange (fst s) \<noteq> None"
  shows "publishes (trace (snd (process_hits env hs s)))
           = publishes (trace (snd s)) @ map message_body hs"
  using process_hits_calls [OF assms, of env hs] by (auto simp: publishes_append)

lemma process_hits_append:
  "process_hits env (xs @ ys) s = process_hits env ys (process_hits env xs s)"
  by (induction xs arbitrary: s) simp_all

text \<open>
  C4. Whatever calls fail during a poll cycle of a started relay, the cycle itself does
  not raise once the search has returned its batch, and a publish is attempted for every
  record of the batch, in the order of the batch; an update of the store is attempted for
  exactly the records whose publish succeeded, in that order. Processing a batch up to a
  record and the rest after it is processing the batch, whichever way the record went.
\<close>

theorem batch_runs_to_its_end:
  assumes "exchange (fst s) \<noteq> None"
    and "es_search env (outbox_query env) s = (Inr batch, s1)"
  shows "fst (process_outbox env s) = None
       \<and> publishes (calls_made (process_outbox env) s) = map message_body batch
       \<and> updates (calls_made (process_outbox env) s)
           = map msg_id (drop (length (delivered (snd s)))
                           (delivered (snd (snd (process_outbox env s)))))
       \<and> process_hits env (earlier @ h # rest) s0
           = process_hits env rest (process_hit env h (process_hits env earlier s0))"
proof -
  have po: "process_outbox env s = (None, process_hits env batch s1)"
    using assms(2) by (simp add: process_outbox_def)
  have w1: "snd s1 = (snd s)\<lparr>trace := trace (snd s) @ [Search (outbox_query env)]\<rparr>"
    and r1: "fst s1 = fst s"
    using es_search_world [of env "outbox_query env" s]
      es_search_relay [of env "outbox_query env" s] assms(2) by simp_all
  have "exchange (fst s1) \<noteq> None"
    using assms(1) r1 by simp
  from process_hits_calls [OF this, of env batch]
  obtain cs ds where "trace (snd (process_hits env batch s1)) = trace (snd s1) @ cs"
      "delivered (snd (process_hits env batch s1)) = delivered (snd s1) @ ds"
      "publishes cs = map message_body batch" "updates cs = map msg_id ds"
    by blast
  then show ?thesis
    using po w1 by (simp add: calls_made_def process_hits_append)
qed

theorem batch_runs_to_its_end_witness:
  "exchange (fst ready) \<noteq> None
   \<and> es_search (failing_at [1]) (outbox_query (failing_at [1])) ready
       = (Inr [(''a'', job 1), (''b'', job 2), (''c'', job 3)],
          snd (es_search (failing_at [1]) (outbox_query (failing_at [1])) ready))
   \<and> fst (publish_event (failing_at [1]) (message_body (''a'', job 1))
             (snd (es_search (failing_at [1]) (outbox_query (failing_at [1])) ready)))
       = Some AMQPError
   \<and> fst (process_outbox (failing_at [1]) ready) = None
   \<and> publishes (calls_made (process_outbox (failing_at [1])) ready)
       = [message_body (''a'', job 1), message_body (''b'', job 2), message_body (''c'', job 3)]
   \<and> updates (calls_made (process_outbox (failing_at [1])) ready) = [''b'', ''c'']"
proof -
  have ex: "exchange (fst ready) \<noteq> None"
    by (simp add: scene)
  have batch: "es_search (failing_at [1]) (outbox_query (failing_at [1])) ready
       = (Inr [(''a'', job 1), (''b'', job 2), (''c'', job 3)],
          snd (es_search (failing_at [1]) (outbox_query (failing_at [1])) ready))"
    by (simp add: steps scene)
  have first_fails: "fst (publish_event (failing_at [1]) (message_body (''a'', job 1))
             (snd (es_search (failing_at [1]) (outbox_query (failing_at [1])) ready)))
       = Some AMQPError"
    by (simp add: steps scene)
  have taken: "delivered (snd (snd (process_outbox (failing_at [1]) ready)))
      = [message_body (''b'', job 2), message_body (''c'', job 3)]"
    by (simp add: steps scene)
  show ?thesis
    using batch_runs_to_its_end [OF ex batch] ex batch first_fails taken
    by (simp add: message_body_def scene)
qed

text \<open>
  C10. \<^verbatim>\<open>save_state\<close> never raises. When the publish and the update of a record have
  succeeded, \<^verbatim>\<open>items_processed\<close> holds an integer, and writing the state file then
  fails, the failure is logged, the record is marked sent in the store, the
  \<^verbatim>\<open>items_processed\<close> of the object has grown by 1, and the records after it in the
  batch are still published.
\<close>

theorem save_failure_is_swallowed:
  assumes pub: "publish_event env (message_body h) s = (None, s1)"
    and upd: "es_partial_update env (fst h) s1 = (None, s2)"
    and cnt: "items_processed (fst s) = JInt n"
    and sav: "write_state env (state_dict env (fst (counted env (JInt (n + 1)) s2)))
                (counted env (JInt (n + 1)) s2) = (Some e, s3)"
  shows "fst (save_state env s') = None
       \<and> sent_flag (snd (process_hit env h s)) (fst h) = Some True
       \<and> items_processed (fst (process_hit env h s)) = JInt (n + 1)
       \<and> errors_logged (snd (process_hit env h s))
           = errors_logged (snd s) @ [(''Failed to save state'', e)]
       \<and> publishes (trace (snd (process_hits env (h # rest) s)))
           = publishes (trace (snd s)) @ map message_body (h # rest)"
proof -
  let ?c = "counted env (JInt (n + 1)) s2"
  have ph: "process_hit env h s = snd (save_state env ?c)"
    by (rule publish_and_mark_ok [OF pub upd cnt])
  have sv: "save_state env ?c = (None, log_error ''Failed to save state'' e s3)"
    using sav by (simp add: save_state_def)
  have flag: "sent_flag (snd s3) (fst h) = Some True"
    using marked_after_update [OF upd] write_state_Some(2) [OF sav]
    by (simp add: sent_flag_def counted_def)
  have logged: "errors_logged (snd s3) = errors_logged (snd s)"
    using write_state_Some(3) [OF sav] publish_event_None(1) [OF pub]
      es_partial_update_None(1) [OF upd] by (simp add: counted_def)
  have r3: "items_processed (fst s3) = JInt (n + 1)"
    using write_state_Some(1) [OF sav] by (simp add: counted_def)
  have "exchange (fst s) \<noteq> None"
    by (rule publish_event_None(2) [OF pub])
  then have rest: "publishes (trace (snd (process_hits env (h # rest) s)))
           = publishes (trace (snd s)) @ map message_body (h # rest)"
    by (rule process_hits_publishes)
  show ?thesis
    using flag logged r3 rest
    by (simp add: ph sv save_state_returns log_error_def sent_flag_def)
qed

theorem save_failure_is_swallowed_witness:
  "publish_event (failing_at [2]) (message_body oldest) ready
     = (None, snd (publish_event (failing_at [2]) (message_body oldest) ready))
   \<and> es_partial_update (failing_at [2]) (fst oldest)
        (snd (publish_event (failing_at [2]) (message_body oldest) ready))
     = (None, marked (failing_at [2]))
   \<and> items_processed (fst ready) = JInt 0
   \<and> fst (write_state (failing_at [2])
             (state_dict (failing_at [2])
                (fst (counted (failing_at [2]) (JInt 1) (marked (failing_at [2])))))
             (counted (failing_at [2]) (JInt 1) (marked (failing_at [2])))) = Some OSError
   \<and> fst (save_state (failing_at [2]) ready) = None
   \<and> sent_flag (snd (process_hit (failing_at [2]) oldest ready)) (fst oldest) = Some True
   \<and> items_processed (fst (process_hit (failing_at [2]) oldest ready)) = JInt 1
   \<and> errors_logged (snd (process_hit (failing_at [2]) oldest ready))
       = [(''Failed to save state'', OSError)]
   \<and> publishes (trace (snd (process_hits (failing_at [2]) [oldest, (''b'', job 2)] ready)))
       = [message_body oldest, message_body (''b'', job 2)]"
proof -
  let ?env = "failing_at [2]"
  let ?s1 = "snd (publish_event ?env (message_body oldest) ready)"
  let ?c = "counted ?env (JInt (0 + 1)) (marked ?env)"
  have pub: "publish_event ?env (message_body oldest) ready = (None, ?s1)"
    by (simp add: steps scene)
  have upd: "es_partial_update ?env (fst oldest) ?s1 = (None, marked ?env)"
    by (simp add: marked_def steps scene)
  have cnt: "items_processed (fst ready) = JInt 0"
    by (simp add: scene)
  have refused: "fst (write_state ?env (state_dict ?env (fst ?c)) ?c) = Some OSError"
    by (simp add: marked_def steps scene)
  then have sav: "write_state ?env (state_dict ?env (fst ?c)) ?c
               = (Some OSError, snd (write_state ?env (state_dict ?env (fst ?c)) ?c))"
    by (simp add: prod_eq_iff)
  have clean: "errors_logged (snd ready) = []" "publishes (trace (snd ready)) = []"
    by (simp_all add: scene)
  show ?thesis
    using save_failure_is_swallowed [OF pub upd cnt sav, of ready "[(''b'', job 2)]"]
      pub upd cnt refused clean
    by simp
qed

subsection \<open>What the relay does to the index\<close>

lemma only_marks_refl: "only_marks ds ds"
  by (simp add: only_marks_def list_all2_same)

lemma only_marks_mark_sent: "only_marks ds (mark_sent i ds)"
  by (simp add: only_marks_def mark_sent_def list_all2_map2 list_all2_same)

lemma only_marks_trans:
  assumes "only_marks xs ys" and "only_marks ys zs"
  shows "only_marks xs zs"
  using assms unfolding only_marks_def
  by (rule list_all2_trans [rotated]) auto

lemma publish_and_mark_index:
  "auction_items (snd (snd (publish_and_mark env h s))) = auction_items (snd s)
   \<or> auction_items (snd (snd (publish_and_mark env h s)))
       = mark_sent (fst h) (auction_items (snd s))"
  using save_state_frame(2) [of env]
  by (auto simp: publish_and_mark_def publish_event_def es_partial_update_def call_out_def
        counted_def Let_def split: prod.splits option.splits sum.splits if_splits)

lemma process_hit_only_marks:
  "only_marks (auction_items (snd s)) (auction_items (snd (process_hit env h s)))"
proof -
  have "auction_items (snd (process_hit env h s))
          = auction_items (snd (snd (publish_and_mark env h s)))"
    by (auto simp: process_hit_def log_error_def split: prod.splits option.splits)
  then show ?thesis
    using publish_and_mark_index [of env h s]
    by (auto simp: only_marks_refl only_marks_mark_sent)
qed

lemma process_hits_only_marks:
  "only_marks (auction_items (snd s)) (auction_items (snd (process_hits env hs s)))"
proof (induction hs arbitrary: s)
  case Nil
  then show ?case by (simp add: only_marks_refl)
next
  case (Cons h hs)
  show ?case
    using process_hit_only_marks [of s env h] Cons.IH [of "process_hit env h s"]
    by (auto intro: only_marks_trans)
qed

lemma process_outbox_only_marks:
  "only_marks (auction_items (snd s)) (auction_items (snd (snd (process_outbox env s))))"
proof -
  obtain res s1 where se: "es_search env (outbox_query env) s = (res, s1)"
    by (metis prod.collapse)
  have "auction_items (snd s1) = auction_items (snd s)"
    using es_search_world [of env "outbox_query env" s] se by simp
  then show ?thesis
    using process_hits_only_marks [of s1 env] se
    by (cases res) (simp_all add: process_outbox_def only_marks_refl)
qed

lemma start_steps_index:
  "auction_items (snd (snd (connect_robust env s))) = auction_items (snd s)"
  "auction_items (snd (snd (open_channel env s))) = auction_items (snd s)"
  "auction_items (snd (snd (declare_exchange env s))) = auction_items (snd s)"
  "auction_items (snd (snd (add_job env s))) = auction_items (snd s)"
  "auction_items (snd (snd (scheduler_start env s))) = auction_items (snd s)"
  by (auto simp: connect_robust_def open_channel_def declare_exchange_def add_job_def
        scheduler_start_def call_out_def Let_def split: option.splits)

lemma stop_steps_index:
  "auction_items (snd (snd (channel_close env s))) = auction_items (snd s)"
  "auction_items (snd (snd (connection_close env s))) = auction_items (snd s)"
  "auction_items (snd (snd (es_close env s))) = auction_items (snd s)"
  "auction_items (snd (snd (scheduler_shutdown env s))) = auction_items (snd s)"
  by (auto simp: channel_close_def connection_close_def es_close_def
        scheduler_shutdown_def call_out_def Let_def split: option.splits)

lemma start_index: "auction_items (snd (snd (start env s))) = auction_items (snd s)"
  unfolding start_def
  by (rule in_sequence_keeps [where g = "\<lambda>s. auction_items (snd s)"])
     (auto simp: start_steps_index load_state_index)

lemma stop_index: "auction_items (snd (snd (stop env s))) = auction_items (snd s)"
  unfolding stop_def
  by (rule in_sequence_keeps [where g = "\<lambda>s. auction_items (snd s)"])
     (auto simp: stop_steps_index save_state_frame)

text \<open>
  C5. A poll cycle leaves the index with the same documents under the same ids, each as
  it was or as it was with \<^verbatim>\<open>outbox_sent\<close> set to true: nothing is created or deleted,
  no flag goes back to false, and title, description, price and \<^verbatim>\<open>created_at\<close> stay.
  \<^verbatim>\<open>start\<close>, \<^verbatim>\<open>stop\<close>, \<^verbatim>\<open>save_state\<close>, \<^verbatim>\<open>load_state\<close> and \<^verbatim>\<open>publish_event\<close> do not
  change the index at all.
\<close>

theorem relay_only_marks_sent:
  "only_marks (auction_items (snd s)) (auction_items (snd (snd (process_outbox env s))))
   \<and> auction_items (snd (snd (start env s))) = auction_items (snd s)
   \<and> auction_items (snd (snd (stop env s))) = auction_items (snd s)
   \<and> auction_items (snd (snd (save_state env s))) = auction_items (snd s)
   \<and> auction_items (snd (snd (load_state env s))) = auction_items (snd s)
   \<and> auction_items (snd (snd (publish_event env m s))) = auction_items (snd s)"
  by (simp add: process_outbox_only_marks start_index stop_index save_state_frame
        load_state_index publish_event_index)

theorem relay_only_marks_sent_witness:
  "only_marks (auction_items seeded) (auction_items (snd (snd (process_outbox calm ready))))
   \<and> auction_items (snd (snd (process_outbox calm ready)))
       = [(''d'', job 4), (''a'', (job 1)\<lparr>outbox_sent := True\<rparr>), (''e'', job 5),
          (''c'', (job 3)\<lparr>outbox_sent := True\<rparr>), (''b'', (job 2)\<lparr>outbox_sent := True\<rparr>)]
   \<and> auction_items (snd (snd (start calm ready))) = auction_items seeded
   \<and> auction_items (snd (snd (stop calm ready))) = auction_items seeded"
proof -
  have "auction_items (snd (snd (process_outbox calm ready)))
       = [(''d'', job 4), (''a'', (job 1)\<lparr>outbox_sent := True\<rparr>), (''e'', job 5),
          (''c'', (job 3)\<lparr>outbox_sent := True\<rparr>), (''b'', (job 2)\<lparr>outbox_sent := True\<rparr>)]"
    by (simp add: steps scene)
  then show ?thesis
    using relay_only_marks_sent [of ready calm "message_body oldest"]
    by (simp add: ready_def)
qed

subsection \<open>The state file\<close>

lemma read_state_dumped:
  assumes present: "state_file w = Some (Dumps (state_dict env r))"
    and opened: "\<not> fails env (length (trace w))"
    and was_read: "\<not> fails env (Suc (length (trace w)))"
    and lib: "\<forall>d. last_update r = Some d \<longrightarrow>
                isoformat env d \<noteq> [] \<and> fromisoformat env (isoformat env d) = Inr d"
  shows "read_state env (r0, w) =
           (None, (r0\<lparr>items_processed := items_processed r, last_update := last_update r\<rparr>,
                   w\<lparr>trace := trace w @ [OpenRead, ReadFile]\<rparr>))"
proof (cases "last_update r")
  case None
  then show ?thesis
    using present opened was_read
    by (simp add: read_state_def call_out_def state_dict_def)
next
  case (Some d)
  with lib have "isoformat env d \<noteq> []" and "fromisoformat env (isoformat env d) = Inr d"
    by simp_all
  then show ?thesis
    using present opened was_read Some
    by (simp add: read_state_def call_out_def state_dict_def parse_datetime_def)
qed

text \<open>
  C6. Save a relay state, whatever its \<^verbatim>\<open>items_processed\<close> and whether or not it has a
  \<^verbatim>\<open>last_update\<close>, and load the file into any relay object: when the file was written
  and is read without an I/O failure, and the library's \<^verbatim>\<open>fromisoformat\<close> reads back
  what its \<^verbatim>\<open>isoformat\<close> printed for this \<^verbatim>\<open>last_update\<close>, the object then reports
  the same \<^verbatim>\<open>items_processed\<close> and \<^verbatim>\<open>last_update\<close>.
\<close>

theorem state_round_trip:
  assumes saved: "write_state env (state_dict env r) (r, w) = (None, s1)"
    and opened: "\<not> fails env (length (trace (snd s1)))"
    and was_read: "\<not> fails env (Suc (length (trace (snd s1))))"
    and lib: "\<forall>d. last_update r = Some d \<longrightarrow>
                isoformat env d \<noteq> [] \<and> fromisoformat env (isoformat env d) = Inr d"
  shows "info (fst (snd (load_state env (r0, snd (snd (save_state env (r, w))))))) = info r"
proof -
  have sv: "save_state env (r, w) = (None, s1)"
    using saved by (simp add: save_state_written)
  have present: "state_file (snd s1) = Some (Dumps (state_dict env r))"
    using write_state_None [OF saved] by simp
  have "read_state env (r0, snd s1) =
           (None, (r0\<lparr>items_processed := items_processed r, last_update := last_update r\<rparr>,
                   (snd s1)\<lparr>trace := trace (snd s1) @ [OpenRead, ReadFile]\<rparr>))"
    by (rule read_state_dumped [OF present opened was_read lib])
  then show ?thesis
    using present by (simp add: sv load_state_def info_def)
qed

theorem state_round_trip_witness:
  "fst (write_state calm (state_dict calm progressed) (progressed, seeded)) = None
   \<and> \<not> fails calm (length (trace (snd (snd
           (write_state calm (state_dict calm progressed) (progressed, seeded))))))
   \<and> \<not> fails calm (Suc (length (trace (snd (snd
           (write_state calm (state_dict calm progressed) (progressed, seeded)))))))
   \<and> last_update progressed = Some (clock 30)
   \<and> isoformat calm (clock 30) = ''2024-05-17T09:30:30''
   \<and> fromisoformat calm ''2024-05-17T09:30:30'' = Inr (clock 30)
   \<and> state_file (snd (snd (save_state calm (progressed, seeded))))
       = Some (Dumps (JObj [(''items_processed'', JInt 7),
                            (''last_update'', JStr ''2024-05-17T09:30:30'')]))
   \<and> info (fst (snd (load_state calm
               (new_relay, snd (snd (save_state calm (progressed, seeded)))))))
       = (JInt 7, Some (clock 30))"
proof -
  let ?s1 = "snd (write_state calm (state_dict calm progressed) (progressed, seeded))"
  have went: "fst (write_state calm (state_dict calm progressed) (progressed, seeded)) = None"
    by (simp add: steps scene)
  then have saved:
    "write_state calm (state_dict calm progressed) (progressed, seeded) = (None, ?s1)"
    by (simp add: prod_eq_iff)
  have opened: "\<not> fails calm (length (trace (snd ?s1)))"
    and was_read: "\<not> fails calm (Suc (length (trace (snd ?s1))))"
    by (simp_all add: scene)
  have "valid_datetime (clock 30)"
    by (simp add: clock_def valid_datetime_def days_in_month_def)
  then have lib: "\<forall>d. last_update progressed = Some d \<longrightarrow>
          isoformat calm d \<noteq> [] \<and> fromisoformat calm (isoformat calm d) = Inr d"
    by (simp add: progressed_def calm_def failing_at_def naive_isoformat_nonempty
          naive_fromisoformat_isoformat)
  have printed: "isoformat calm (clock 30) = ''2024-05-17T09:30:30''"
    by (simp add: scene clock_text)
  have written: "state_file (snd (snd (save_state calm (progressed, seeded))))
       = Some (Dumps (JObj [(''items_processed'', JInt 7),
                            (''last_update'', JStr ''2024-05-17T09:30:30'')]))"
  proof -
    have "save_state calm (progressed, seeded) = (None, ?s1)"
      using save_state_written [of calm "(progressed, seeded)" ?s1] saved by simp
    moreover have "state_file (snd ?s1) = Some (Dumps (state_dict calm progressed))"
      using write_state_None [OF saved] by simp
    ultimately show ?thesis
      using printed by (simp add: state_dict_def progressed_def)
  qed
  have parsed: "fromisoformat calm ''2024-05-17T09:30:30'' = Inr (clock 30)"
    using lib printed by (simp add: progressed_def)
  show ?thesis
    using state_round_trip [OF saved opened was_read lib, of new_relay]
      went opened was_read printed parsed written
    by (simp add: info_def progressed_def)
qed

text \<open>
  Loading never raises, and a new relay stays at zero with no \<^verbatim>\<open>last_update\<close> when the
  file is missing, cannot be read, is not JSON, or is JSON but not an object.
\<close>

lemma load_state_starts_fresh:
  assumes "state_file w = None \<or> state_file w = Some Garbled
           \<or> fails env (length (trace w)) \<or> fails env (Suc (length (trace w)))
           \<or> (\<exists>j. state_file w = Some (Dumps j) \<and> (\<forall>kvs. j \<noteq> JObj kvs))"
  shows "fst (load_state env (new_relay, w)) = None
       \<and> info (fst (snd (load_state env (new_relay, w)))) = (JInt 0, None)"
proof -
  have "fst (snd (load_state env (new_relay, w))) = (new_relay :: 'a relay)"
  proof (cases "state_file w")
    case None
    then show ?thesis by (simp add: load_state_def)
  next
    case (Some t)
    show ?thesis
    proof (cases t)
      case Garbled
      then show ?thesis using Some
        by (simp add: load_state_def read_state_def call_out_def log_error_def)
    next
      case (Dumps j)
      then have "fails env (length (trace w)) \<or> fails env (Suc (length (trace w)))
           \<or> (\<forall>kvs. j \<noteq> JObj kvs)"
        using assms Some by auto
      then show ?thesis using Some Dumps
        by (cases j) (auto simp: load_state_def read_state_def call_out_def log_error_def)
    qed
  qed
  then show ?thesis by (simp add: info_def new_relay_def load_state_returns)
qed

text \<open>
  C7. The state file holds \<^verbatim>\<open>{"items_processed": 5}\<close>, an object without the
  \<^verbatim>\<open>last_update\<close> key, or \<^verbatim>\<open>{"items_processed": 5, "last_update": "not a date"}\<close>.
  Loading either into a new relay does not raise and logs the \<^verbatim>\<open>KeyError\<close> or the
  \<^verbatim>\<open>ValueError\<close>, but \<^verbatim>\<open>items_processed\<close> was assigned before \<^verbatim>\<open>last_update\<close> was
  looked at: the relay starts from 5, not from 0.
\<close>

theorem load_state_keeps_count_of_partial_file:
  "load_state calm
     (new_relay, seeded\<lparr>state_file := Some (Dumps (JObj [(''items_processed'', JInt 5)]))\<rparr>)
   = (None,
      (new_relay\<lparr>items_processed := JInt 5\<rparr>,
       seeded\<lparr>state_file := Some (Dumps (JObj [(''items_processed'', JInt 5)])),
              trace := [OpenRead, ReadFile],
              errors_logged := [(''Failed to load state'', KeyError)]\<rparr>))
   \<and> load_state calm
     (new_relay, seeded\<lparr>state_file := Some (Dumps (JObj [(''items_processed'', JInt 5),
                                                         (''last_update'', JStr ''not a date'')]))\<rparr>)
   = (None,
      (new_relay\<lparr>items_processed := JInt 5\<rparr>,
       seeded\<lparr>state_file := Some (Dumps (JObj [(''items_processed'', JInt 5),
                                                (''last_update'', JStr ''not a date'')])),
              trace := [OpenRead, ReadFile],
              errors_logged := [(''Failed to load state'', ValueError)]\<rparr>))
   \<and> info (new_relay\<lparr>items_processed := JInt 5\<rparr> :: datetime relay) = (JInt 5, None)"
  by (simp add: steps scene naive_fromisoformat_def info_def new_relay_def)

subsection \<open>Stopping\<close>


















end
